theory Spec2Isabelle
  imports Main
begin

section \<open>Ledger events, errors and the collaborators of the anchor manager\<close>

text \<open>
  The development embeds \<^verbatim>\<open>packages/ethereum-storage/src/lib/smart-contract-manager.ts\<close>.
  JavaScript numbers that hold block numbers, timestamps and confirmation counts are
  modelled as \<^typ>\<open>int\<close> (exact below \<open>2 ^ 53\<close>); a value that may be \<^verbatim>\<open>undefined\<close> is an
  \<^typ>\<open>'a option\<close>; a promise that rejects is \<open>Inl\<close> of an error, one that resolves is
  \<open>Inr\<close> of its value.
\<close>

text \<open>The \<^verbatim>\<open>returnValues\<close> object of a decoded log entry.\<close>

record return_values =
  hash :: "string option"
  feesParameters :: "string option"

text \<open>A raw entry as \<^verbatim>\<open>getPastEvents\<close> returns it.\<close>

record log_event =
  blockNumber :: int
  transactionHash :: string
  event :: string
  returnValues :: "return_values option"

text \<open>The block object of \<^verbatim>\<open>getBlock\<close>; a pending block carries no number.\<close>

record block_object =
  number :: "int option"

text \<open>\<^verbatim>\<open>IBlockNumbersInterval\<close>: the blocks around a timestamp.\<close>

record block_interval =
  blockBefore :: int
  blockAfter :: int

text \<open>\<^verbatim>\<open>ITimestampBoundaries\<close>.\<close>

record timestamp_boundaries =
  from_ts :: "int option"
  to_ts :: "int option"

text \<open>\<^verbatim>\<open>IEthereumMetadata\<close>; the big-number strings \<^verbatim>\<open>cost\<close>, \<^verbatim>\<open>fee\<close> and \<^verbatim>\<open>gasFee\<close> are kept
  as the integers they print.\<close>

record ethereum_metadata =
  m_blockConfirmation :: int
  m_blockNumber :: int
  m_blockTimestamp :: int
  m_cost :: "int option"
  m_fee :: "int option"
  m_gasFee :: "int option"
  m_networkName :: string
  m_smartContractAddress :: string
  m_transactionHash :: string

text \<open>What \<^verbatim>\<open>checkAndAddMetaDataToEvent\<close> returns.\<close>

record entry =
  e_contentSize :: int
  e_hash :: string
  e_meta :: ethereum_metadata

text \<open>The receipt handed to the confirmation callback.\<close>

record receipt =
  rc_gasUsed :: int
  rc_blockNumber :: int
  rc_transactionHash :: string

text \<open>
  Every \<^verbatim>\<open>throw Error(...)\<close> of the file is one constructor; the text of a caught error
  that the message interpolates (\<^verbatim>\<open>${e}\<close>) is its argument. \<open>ExternalError\<close> is an error
  raised outside the file (the web3 provider, the block index, web3-utils), identified by
  its \<^verbatim>\<open>toString()\<close>; \<open>TypeError\<close> is the runtime's error on reading a property of
  \<^verbatim>\<open>undefined\<close>.
\<close>

datatype error =
    ExternalError string
  | TypeError
  | EthereumTransactionError string
  | MaximumNumberOfConfirmationReached error
  | ContentHashNotIndexed
  | ToBlockMustBeLargerThanFromBlock int int
  | EventIsIncorrect
  | ErrorGettingBlockConfirmationNumber string
  | ErrorGettingBlockTimestamp int string
  | CannotGetTheNumberOfTheBlock string
  | BlockHasNoNumber string

text \<open>A block given as \<^verbatim>\<open>number | string\<close>.\<close>

datatype block_ref = Number int | Describer string

text \<open>
  The manager: its configuration and the answers of its collaborators, none of which is
  part of the file. \<open>getPastEvents m f t\<close> is the outcome of the retried, timeout-raced
  \<^verbatim>\<open>requestHashStorage.getPastEvents({event: 'NewHash', fromBlock: f, toBlock: t})\<close>, with
  \<open>Inl\<close> carrying \<^verbatim>\<open>e.toString()\<close> of the error thrown; the other fields are the methods of
  \<^verbatim>\<open>ethereumBlocks\<close> and \<^verbatim>\<open>web3Utils.hexToNumber\<close>.
\<close>

record manager =
  creationBlockNumberHashStorage :: int
  networkName :: string
  hashStorageAddress :: string
  getPastEvents :: "int \<Rightarrow> int \<Rightarrow> string + log_event list"
  getBlock :: "string \<Rightarrow> string + block_object option"
  getConfirmationNumber :: "int \<Rightarrow> string + int"
  getBlockTimestamp :: "int \<Rightarrow> string + int"
  getBlockNumbersFromTimestamp :: "int \<Rightarrow> string + block_interval"
  hexToNumber :: "string \<Rightarrow> string + int"

definition CREATING_ETHEREUM_METADATA_MAX_ATTEMPTS :: int where
  "CREATING_ETHEREUM_METADATA_MAX_ATTEMPTS = 23"

section \<open>The result-count overflow pattern\<close>

text \<open>
  \<^verbatim>\<open>new RegExp('query returned more than [1-9][0-9]* results')\<close>, used with
  \<^verbatim>\<open>String.prototype.match\<close>: the pattern may start anywhere in the text. The digits are
  followed by a space, so taking every digit before looking for \<^verbatim>\<open>' results'\<close> loses no
  match.
\<close>

definition is_digit :: "char \<Rightarrow> bool" where
  "is_digit c = (c \<in> set ''0123456789'')"

definition is_nonzero_digit :: "char \<Rightarrow> bool" where
  "is_nonzero_digit c = (c \<in> set ''123456789'')"

fun strip_prefix :: "string \<Rightarrow> string \<Rightarrow> string option" where
  "strip_prefix [] s = Some s"
| "strip_prefix (p # ps) [] = None"
| "strip_prefix (p # ps) (c # cs) = (if p = c then strip_prefix ps cs else None)"

definition match_here :: "string \<Rightarrow> bool" where
  "match_here s =
     (case strip_prefix ''query returned more than '' s of
        None \<Rightarrow> False
      | Some r \<Rightarrow>
          (case r of
             [] \<Rightarrow> False
           | d # ds \<Rightarrow>
               is_nonzero_digit d \<and>
               (case strip_prefix '' results'' (dropWhile is_digit ds) of
                  None \<Rightarrow> False
                | Some _ \<Rightarrow> True)))"

fun MORE_THAN_XXX_RESULTS_REGEX :: "string \<Rightarrow> bool" where
  "MORE_THAN_XXX_RESULTS_REGEX [] = False"
| "MORE_THAN_XXX_RESULTS_REGEX (c # cs) =
     (match_here (c # cs) \<or> MORE_THAN_XXX_RESULTS_REGEX cs)"

section \<open>Resolving a block reference\<close>

text \<open>
  \<^verbatim>\<open>getBlockNumberFromNumberOrString\<close>. \<^verbatim>\<open>!blockObject\<close> holds for \<^verbatim>\<open>null\<close> and
  \<^verbatim>\<open>undefined\<close>; \<^verbatim>\<open>!blockObject.number\<close> holds for a missing number and for the number
  \<open>0\<close>.
\<close>

fun getBlockNumberFromNumberOrString :: "manager \<Rightarrow> block_ref \<Rightarrow> error + int" where
  "getBlockNumberFromNumberOrString m (Number n) = Inr n"
| "getBlockNumberFromNumberOrString m (Describer block) =
     (case getBlock m block of
        Inl e \<Rightarrow> Inl (CannotGetTheNumberOfTheBlock e)
      | Inr None \<Rightarrow> Inl (BlockHasNoNumber block)
      | Inr (Some blockObject) \<Rightarrow>
          (case number blockObject of
             None \<Rightarrow> Inl (BlockHasNoNumber block)
           | Some n \<Rightarrow> if n = 0 then Inl (BlockHasNoNumber block) else Inr n))"

section \<open>Range retrieval with recursive splitting\<close>

text \<open>
  \<^verbatim>\<open>Promise.all\<close> of the two halves: it resolves with both values once both have
  resolved and rejects as soon as one of them rejects, also while the other is still
  pending (\<open>None\<close>). When both reject, which error it reports depends on the schedule;
  the model reports the first half's.
\<close>

fun promise_all2 :: "(error + 'a) option \<Rightarrow> (error + 'a) option \<Rightarrow> (error + 'a list) option" where
  "promise_all2 (Some (Inl e)) q = Some (Inl e)"
| "promise_all2 p (Some (Inl e)) = Some (Inl e)"
| "promise_all2 (Some (Inr a)) (Some (Inr b)) = Some (Inr [a, b])"
| "promise_all2 p q = None"

text \<open>
  Modelled from the spec: \<^verbatim>\<open>Utils.flatten2DimensionsArray\<close> (the utils package is not
  part of the sources at hand), which concatenates the two result lists, the first
  half's events before the second half's.
\<close>

definition flatten2DimensionsArray :: "'a list list \<Rightarrow> 'a list" where
  "flatten2DimensionsArray halves = concat halves"

text \<open>\<^verbatim>\<open>promise.then(f)\<close> for a synchronous \<open>f\<close> that does not throw.\<close>

fun promise_then :: "(error + 'a) option \<Rightarrow> ('a \<Rightarrow> 'b) \<Rightarrow> (error + 'b) option" where
  "promise_then None f = None"
| "promise_then (Some (Inl e)) f = Some (Inl e)"
| "promise_then (Some (Inr v)) f = Some (Inr (f v))"

definition intervalHalf :: "int \<Rightarrow> int \<Rightarrow> int" where
  "intervalHalf fromBlock toBlockNumber = (fromBlock + toBlockNumber) div 2"

text \<open>
  \<^verbatim>\<open>recursiveGetPastEvents\<close>. The source has no bound on the recursion, so the model
  carries the number of nested calls it may still make: \<open>None\<close> says that the promise
  has not settled within that depth. Errors of the recursive calls reach the caller
  through \<^verbatim>\<open>Promise.all\<close>; only the error of the query itself is matched against the
  pattern.
\<close>

fun recursiveGetPastEvents ::
  "nat \<Rightarrow> manager \<Rightarrow> int \<Rightarrow> block_ref \<Rightarrow> (error + log_event list) option" where
  "recursiveGetPastEvents 0 m fromBlock toBlock = None"
| "recursiveGetPastEvents (Suc k) m fromBlock toBlock =
     (case getBlockNumberFromNumberOrString m toBlock of
        Inl e \<Rightarrow> Some (Inl e)
      | Inr toBlockNumber \<Rightarrow>
          (case getPastEvents m fromBlock toBlockNumber of
             Inr events \<Rightarrow> Some (Inr events)
           | Inl e \<Rightarrow>
               if MORE_THAN_XXX_RESULTS_REGEX e then
                 promise_then
                   (promise_all2
                      (recursiveGetPastEvents k m fromBlock
                         (Number (intervalHalf fromBlock toBlockNumber)))
                      (recursiveGetPastEvents k m (intervalHalf fromBlock toBlockNumber + 1)
                         (Number toBlockNumber)))
                   flatten2DimensionsArray
               else Some (Inl (ExternalError e))))"

section \<open>Ledger metadata and event enrichment\<close>

text \<open>\<^verbatim>\<open>createEthereumMetaData\<close>: the confirmation count first, then the timestamp.\<close>

definition createEthereumMetaData ::
  "manager \<Rightarrow> int \<Rightarrow> string \<Rightarrow> int option \<Rightarrow> int option \<Rightarrow> int option \<Rightarrow> error + ethereum_metadata" where
  "createEthereumMetaData m blockNo txHash cost fee gasFee =
     (case getConfirmationNumber m blockNo of
        Inl e \<Rightarrow> Inl (ErrorGettingBlockConfirmationNumber e)
      | Inr blockConfirmation \<Rightarrow>
          (case getBlockTimestamp m blockNo of
             Inl e \<Rightarrow> Inl (ErrorGettingBlockTimestamp blockNo e)
           | Inr blockTimestamp \<Rightarrow>
               Inr \<lparr> m_blockConfirmation = blockConfirmation,
                     m_blockNumber = blockNo,
                     m_blockTimestamp = blockTimestamp,
                     m_cost = cost,
                     m_fee = fee,
                     m_gasFee = gasFee,
                     m_networkName = networkName m,
                     m_smartContractAddress = hashStorageAddress m,
                     m_transactionHash = txHash \<rparr>))"

text \<open>
  \<^verbatim>\<open>checkAndAddMetaDataToEvent\<close>: the three \<^verbatim>\<open>typeof ... === 'undefined'\<close> tests, then
  the decoding of the fee parameter and the metadata of the event's block.
\<close>

definition checkAndAddMetaDataToEvent :: "manager \<Rightarrow> log_event \<Rightarrow> error + entry" where
  "checkAndAddMetaDataToEvent m ev =
     (case returnValues ev of
        None \<Rightarrow> Inl EventIsIncorrect
      | Some rv \<Rightarrow>
          (case hash rv of
             None \<Rightarrow> Inl EventIsIncorrect
           | Some h \<Rightarrow>
               (case feesParameters rv of
                  None \<Rightarrow> Inl EventIsIncorrect
                | Some fp \<Rightarrow>
                    (case hexToNumber m fp of
                       Inl e \<Rightarrow> Inl (ExternalError e)
                     | Inr contentSize \<Rightarrow>
                         (case createEthereumMetaData m (blockNumber ev) (transactionHash ev)
                                 None None None of
                            Inl e \<Rightarrow> Inl e
                          | Inr meta \<Rightarrow>
                              Inr \<lparr> e_contentSize = contentSize, e_hash = h,
                                    e_meta = meta \<rparr>)))))"

text \<open>
  \<^verbatim>\<open>Bluebird.map\<close>: the results in the order of the items, or a rejection when an item
  rejects. With several items rejecting, the model reports the first in list order.
\<close>

fun bluebird_map :: "('a \<Rightarrow> error + 'b) \<Rightarrow> 'a list \<Rightarrow> error + 'b list" where
  "bluebird_map f [] = Inr []"
| "bluebird_map f (x # xs) =
     (case f x of
        Inl e \<Rightarrow> Inl e
      | Inr y \<Rightarrow> (case bluebird_map f xs of Inl e \<Rightarrow> Inl e | Inr ys \<Rightarrow> Inr (y # ys)))"

text \<open>\<^verbatim>\<open>toBlock || 'latest'\<close>: \<^verbatim>\<open>undefined\<close>, the number \<open>0\<close> and the empty string are falsy.\<close>

fun or_latest :: "block_ref option \<Rightarrow> block_ref" where
  "or_latest None = Describer ''latest''"
| "or_latest (Some (Number n)) = (if n = 0 then Describer ''latest'' else Number n)"
| "or_latest (Some (Describer s)) = (if s = [] then Describer ''latest'' else Describer s)"

definition getHashesAndSizesFromEvents ::
  "nat \<Rightarrow> manager \<Rightarrow> int \<Rightarrow> block_ref option \<Rightarrow> (error + entry list) option" where
  "getHashesAndSizesFromEvents fuel m fromBlock toBlock =
     (case recursiveGetPastEvents fuel m
             (if fromBlock < creationBlockNumberHashStorage m
              then creationBlockNumberHashStorage m else fromBlock)
             (or_latest toBlock) of
        None \<Rightarrow> None
      | Some (Inl e) \<Rightarrow> Some (Inl e)
      | Some (Inr events) \<Rightarrow>
          Some (bluebird_map (checkAndAddMetaDataToEvent m)
                  (filter (\<lambda>eventItem. event eventItem = ''NewHash'') events)))"

section \<open>Time boundaries\<close>

text \<open>\<^verbatim>\<open>options && options.from\<close>: the value when it is there and truthy.\<close>

definition truthy_field ::
  "timestamp_boundaries option \<Rightarrow> (timestamp_boundaries \<Rightarrow> int option) \<Rightarrow> int option" where
  "truthy_field options sel =
     (case options of
        None \<Rightarrow> None
      | Some opts \<Rightarrow>
          (case sel opts of None \<Rightarrow> None | Some v \<Rightarrow> if v = 0 then None else Some v))"

text \<open>
  The first part of \<^verbatim>\<open>getHashesAndSizesFromEthereum\<close>, up to and including the test
  \<^verbatim>\<open>if (toBlock && toBlock < fromBlock)\<close>: the pair \<open>(fromBlock, toBlock)\<close> it hands to
  \<^verbatim>\<open>getHashesAndSizesFromEvents\<close>, or the error it throws.
\<close>

definition resolveBlockRange ::
  "manager \<Rightarrow> timestamp_boundaries option \<Rightarrow> error + (int \<times> int option)" where
  "resolveBlockRange m options =
     (case (case truthy_field options from_ts of
              None \<Rightarrow> Inr (creationBlockNumberHashStorage m)
            | Some f \<Rightarrow>
                (case getBlockNumbersFromTimestamp m f of
                   Inl e \<Rightarrow> Inl (ExternalError e)
                 | Inr optionFromBlockNumbers \<Rightarrow> Inr (blockAfter optionFromBlockNumbers))) of
        Inl e \<Rightarrow> Inl e
      | Inr fromBlock \<Rightarrow>
          (case (case truthy_field options to_ts of
                   None \<Rightarrow> Inr None
                 | Some t \<Rightarrow>
                     (case getBlockNumbersFromTimestamp m t of
                        Inl e \<Rightarrow> Inl (ExternalError e)
                      | Inr optionToBlockNumbers \<Rightarrow>
                          Inr (Some (blockBefore optionToBlockNumbers)))) of
             Inl e \<Rightarrow> Inl e
           | Inr None \<Rightarrow> Inr (fromBlock, None)
           | Inr (Some toBlock) \<Rightarrow>
               if toBlock = 0 then Inr (fromBlock, Some toBlock)
               else if toBlock < fromBlock
                 then Inl (ToBlockMustBeLargerThanFromBlock fromBlock toBlock)
                 else Inr (fromBlock, Some toBlock)))"

definition getHashesAndSizesFromEthereum ::
  "nat \<Rightarrow> manager \<Rightarrow> timestamp_boundaries option \<Rightarrow> (error + entry list) option" where
  "getHashesAndSizesFromEthereum fuel m options =
     (case resolveBlockRange m options of
        Inl e \<Rightarrow> Some (Inl e)
      | Inr (fromBlock, toBlock) \<Rightarrow>
          getHashesAndSizesFromEvents fuel m fromBlock (map_option Number toBlock))"

section \<open>Metadata of one content hash\<close>




section \<open>Submission: the promise driven by the transaction's signals\<close>

text \<open>
  The promise of \<^verbatim>\<open>addHashAndSizeToEthereum\<close> and the flag its callbacks share. A
  JavaScript promise settles once: \<^verbatim>\<open>resolve\<close> and \<^verbatim>\<open>reject\<close> on a settled promise do
  nothing.
\<close>

record submission =
  promise :: "(error + ethereum_metadata) option"
  ethereumMetadataCreated :: bool

definition resolve :: "submission \<Rightarrow> ethereum_metadata \<Rightarrow> submission" where
  "resolve s v = (case promise s of None \<Rightarrow> s\<lparr>promise := Some (Inr v)\<rparr> | Some _ \<Rightarrow> s)"

definition reject :: "submission \<Rightarrow> error \<Rightarrow> submission" where
  "reject s e = (case promise s of None \<Rightarrow> s\<lparr>promise := Some (Inl e)\<rparr> | Some _ \<Rightarrow> s)"

text \<open>
  A signal of the sent transaction. A confirmation carries its number, the receipt and
  the manager with the block index as it answers while this confirmation's metadata is
  built. The signals are handled one at a time: the metadata attempt that a confirmation
  starts is taken to settle, and its \<^verbatim>\<open>then\<close> or \<^verbatim>\<open>catch\<close> callback to run, before the
  next signal is delivered.
\<close>

datatype signal = OnError string | OnConfirmation int receipt manager

text \<open>
  The attempt of the confirmation callback: \<^verbatim>\<open>gasFee = gasUsed * gasPriceToUse\<close>,
  \<^verbatim>\<open>cost = gasFee + fee\<close>, then \<^verbatim>\<open>createEthereumMetaData\<close> for the receipt's block.
  \<open>fee\<close> and \<open>gasPriceToUse\<close> are the values computed before the send.
\<close>

definition metadata_attempt ::
  "int \<Rightarrow> int \<Rightarrow> receipt \<Rightarrow> manager \<Rightarrow> error + ethereum_metadata" where
  "metadata_attempt fee gasPriceToUse receiptAfterConfirmation m =
     createEthereumMetaData m (rc_blockNumber receiptAfterConfirmation)
       (rc_transactionHash receiptAfterConfirmation)
       (Some (rc_gasUsed receiptAfterConfirmation * gasPriceToUse + fee))
       (Some fee)
       (Some (rc_gasUsed receiptAfterConfirmation * gasPriceToUse))"

text \<open>The two callbacks, \<^verbatim>\<open>.on('error', ...)\<close> and \<^verbatim>\<open>.on('confirmation', ...)\<close>.\<close>

fun on_signal :: "int \<Rightarrow> int \<Rightarrow> submission \<Rightarrow> signal \<Rightarrow> submission" where
  "on_signal fee gasPriceToUse s (OnError transactionError) =
     reject s (EthereumTransactionError transactionError)"
| "on_signal fee gasPriceToUse s (OnConfirmation confirmationNumber receiptAfterConfirmation m) =
     (if ethereumMetadataCreated s then s
      else
        (case metadata_attempt fee gasPriceToUse receiptAfterConfirmation m of
           Inr ethereumMetadata \<Rightarrow>
             resolve (s\<lparr>ethereumMetadataCreated := True\<rparr>) ethereumMetadata
         | Inl e \<Rightarrow>
             if CREATING_ETHEREUM_METADATA_MAX_ATTEMPTS \<le> confirmationNumber
             then reject s (MaximumNumberOfConfirmationReached e)
             else s))"

definition submitted :: submission where
  "submitted = \<lparr> promise = None, ethereumMetadataCreated = False \<rparr>"

text \<open>
  The promise part of \<^verbatim>\<open>addHashAndSizeToEthereum\<close> after the signals \<open>signals\<close>, in the
  order of their delivery: \<open>None\<close> while the promise is pending.
\<close>

definition addHashAndSizeToEthereum ::
  "int \<Rightarrow> int \<Rightarrow> signal list \<Rightarrow> (error + ethereum_metadata) option" where
  "addHashAndSizeToEthereum fee gasPriceToUse signals =
     promise (foldl (on_signal fee gasPriceToUse) submitted signals)"

text \<open>
  A confirmation below the cap whose metadata attempt fails: the signals a submission
  sees while the head is behind the mined block.
\<close>

fun fails_below_cap :: "int \<Rightarrow> int \<Rightarrow> signal \<Rightarrow> bool" where
  "fails_below_cap fee gasPriceToUse (OnError transactionError) = False"
| "fails_below_cap fee gasPriceToUse (OnConfirmation confirmationNumber r m) =
     (confirmationNumber < CREATING_ETHEREUM_METADATA_MAX_ATTEMPTS \<and>
      (case metadata_attempt fee gasPriceToUse r m of Inl e \<Rightarrow> True | Inr md \<Rightarrow> False))"

section \<open>The block time index\<close>

text \<open>
  Modelled from the spec: \<^verbatim>\<open>EthereumBlocks.getBlockNumbersFromTimestamp\<close>
  (\<^verbatim>\<open>ethereum-blocks.ts\<close> is not among the sources at hand). The spec: binary search over
  \<open>[creationBlock, headBlock]\<close> on the block timestamps, which do not decrease with the
  block number; \<open>blockAfter\<close> is the smallest block whose timestamp is at least the
  target, \<open>blockBefore\<close> the largest block whose timestamp is at most the target; when no
  block satisfies the bound the nearest boundary is returned.
\<close>

function blockAfter_search :: "(int \<Rightarrow> int) \<Rightarrow> int \<Rightarrow> int \<Rightarrow> int \<Rightarrow> int" where
  "blockAfter_search ts target lo hi =
     (if lo < hi then
        (if target \<le> ts ((lo + hi) div 2)
         then blockAfter_search ts target lo ((lo + hi) div 2)
         else blockAfter_search ts target ((lo + hi) div 2 + 1) hi)
      else lo)"
  by pat_completeness auto
termination
  by (relation "measure (\<lambda>(ts, target, lo, hi). nat (hi - lo))") auto

text \<open>
  Modelled from the spec: the search of the same index for \<open>blockBefore\<close>, the largest
  block whose timestamp is at most the target (the creation block when there is none).
\<close>

function blockBefore_search :: "(int \<Rightarrow> int) \<Rightarrow> int \<Rightarrow> int \<Rightarrow> int \<Rightarrow> int" where
  "blockBefore_search ts target lo hi =
     (if lo < hi then
        (if ts ((lo + hi + 1) div 2) \<le> target
         then blockBefore_search ts target ((lo + hi + 1) div 2) hi
         else blockBefore_search ts target lo ((lo + hi + 1) div 2 - 1))
      else lo)"
  by pat_completeness auto
termination
  by (relation "measure (\<lambda>(ts, target, lo, hi). nat (hi - lo))") auto

text \<open>
  Modelled from the spec: the interval \<open>{blockBefore, blockAfter}\<close> that
  \<^verbatim>\<open>getBlockNumbersFromTimestamp\<close> resolves, on the timestamps \<open>ts\<close> of a chain whose
  contract was created at \<open>creationBlock\<close> and whose head is \<open>headBlock\<close>.
\<close>

definition block_time_index :: "(int \<Rightarrow> int) \<Rightarrow> int \<Rightarrow> int \<Rightarrow> int \<Rightarrow> block_interval" where
  "block_time_index ts creationBlock headBlock target =
     \<lparr> blockBefore = blockBefore_search ts target creationBlock headBlock,
       blockAfter = blockAfter_search ts target creationBlock headBlock \<rparr>"

section \<open>A ledger, a result-limited provider and a test manager\<close>

text \<open>
  The events a single query over \<open>[fromBlock, toBlock]\<close> returns when the provider sets
  no limit: the entries of the ledger's log in that block range, in the log's order.
\<close>

definition unlimited_query :: "log_event list \<Rightarrow> int \<Rightarrow> int \<Rightarrow> log_event list" where
  "unlimited_query ledger fromBlock toBlock =
     filter (\<lambda>e. fromBlock \<le> blockNumber e \<and> blockNumber e \<le> toBlock) ledger"

text \<open>
  A provider that refuses a range holding more than 1000 results, as the mock of the
  manager's test does: \<open>txPerBlock b\<close> is the number of results of block \<open>b\<close>.
\<close>

definition limitedProvider ::
  "(int \<Rightarrow> nat) \<Rightarrow> log_event list \<Rightarrow> int \<Rightarrow> int \<Rightarrow> string + log_event list" where
  "limitedProvider txPerBlock ledger fromBlock toBlock =
     (if 1000 < sum_list (map txPerBlock [fromBlock..toBlock])
      then Inl ''Error: query returned more than 1000 results''
      else Inr (unlimited_query ledger fromBlock toBlock))"

definition new_hash :: "int \<Rightarrow> string \<Rightarrow> string \<Rightarrow> string \<Rightarrow> log_event" where
  "new_hash blockNo txHash h fp =
     \<lparr> blockNumber = blockNo, transactionHash = txHash, event = ''NewHash'',
       returnValues = Some \<lparr> hash = Some h, feesParameters = Some fp \<rparr> \<rparr>"

definition pastEventsMock :: "log_event list" where
  "pastEventsMock =
     [new_hash 0 ''0xa'' ''QmNXA5'' ''0x1d'',
      new_hash 4 ''0xb'' ''QmNXA5'' ''0x32'',
      new_hash 6 ''0xc'' ''other content'' ''0x186a0'',
      new_hash 9 ''0xd'' ''other content'' ''0x186a0'']"

definition mockBlocksEthereum :: "int list" where
  "mockBlocksEthereum = [7, 30, 45, 87, 100, 150, 209, 234, 290, 306]"

definition mock_timestamp :: "int \<Rightarrow> int" where
  "mock_timestamp b = mockBlocksEthereum ! nat b"

definition mock_hexToNumber :: "string \<Rightarrow> string + int" where
  "mock_hexToNumber s =
     (if s = ''0x1d'' then Inr 29
      else if s = ''0x32'' then Inr 50
      else if s = ''0x186a0'' then Inr 100000
      else if s = ''0x0'' then Inr 0
      else Inl ''Error: Given value is not a valid hex string'')"

text \<open>
  A manager on a ten-block chain (blocks \<open>0\<close> to \<open>9\<close>, the contract created at block
  \<open>0\<close>) over the ledger \<open>ledger\<close>, with the result-limited provider.
\<close>

definition mock_manager :: "(int \<Rightarrow> nat) \<Rightarrow> log_event list \<Rightarrow> manager" where
  "mock_manager txPerBlock ledger =
     \<lparr> creationBlockNumberHashStorage = 0,
       networkName = ''private'',
       hashStorageAddress = ''0x345ca3e014aaf5dca488057592ee47305d9b3e10'',
       getPastEvents = limitedProvider txPerBlock ledger,
       getBlock = (\<lambda>block.
          if block = ''latest'' then Inr (Some \<lparr> number = Some 9 \<rparr>)
          else if block = ''genesis'' \<or> block = ''earliest''
            then Inr (Some \<lparr> number = Some 0 \<rparr>)
          else Inl ''Error: invalid block describer''),
       getConfirmationNumber = (\<lambda>b. Inr (9 - b)),
       getBlockTimestamp = (\<lambda>b. Inr (mock_timestamp b)),
       getBlockNumbersFromTimestamp = (\<lambda>t. Inr (block_time_index mock_timestamp 0 9 t)),
       hexToNumber = mock_hexToNumber \<rparr>"

text \<open>The same chain before its first block after genesis: the head is block \<open>0\<close>.\<close>

definition fresh_chain_manager :: manager where
  "fresh_chain_manager =
     (mock_manager (\<lambda>b. 1) [])
       \<lparr> getBlock := (\<lambda>block. Inr (Some \<lparr> number = Some 0 \<rparr>)) \<rparr>"

text \<open>A block index that cannot reach the head yet, and one that can.\<close>

definition lagging_manager :: manager where
  "lagging_manager =
     (mock_manager (\<lambda>b. 1) [])
       \<lparr> getConfirmationNumber := (\<lambda>b. Inl ''Error: block not found'') \<rparr>"

definition mined_receipt :: receipt where
  "mined_receipt = \<lparr> rc_gasUsed = 21000, rc_blockNumber = 4, rc_transactionHash = ''0xb'' \<rparr>"

text \<open>
  Two result counts per block of the test: one that never forces a split, and one that
  forces a split of every range of more than one block.
\<close>

definition quiet_manager :: manager where
  "quiet_manager = mock_manager (\<lambda>b. 1) pastEventsMock"

definition busy_manager :: manager where
  "busy_manager = mock_manager (\<lambda>b. 999) pastEventsMock"

text \<open>
  A ledger whose block \<open>3\<close> alone holds 1001 events, and a provider that refuses a
  range exactly when the range holds more than 1000 events of the ledger.
\<close>

definition crowded_ledger :: "log_event list" where
  "crowded_ledger =
     new_hash 0 ''0xa'' ''QmNXA5'' ''0x1d'' #
     replicate 1001 (new_hash 3 ''0xe'' ''crowd'' ''0x1d'') @
     [new_hash 6 ''0xc'' ''other content'' ''0x186a0'']"

definition countingProvider :: "log_event list \<Rightarrow> int \<Rightarrow> int \<Rightarrow> string + log_event list" where
  "countingProvider ledger fromBlock toBlock =
     (if 1000 < length (unlimited_query ledger fromBlock toBlock)
      then Inl ''Error: query returned more than 1000 results''
      else Inr (unlimited_query ledger fromBlock toBlock))"

definition crowded_manager :: manager where
  "crowded_manager =
     (mock_manager (\<lambda>b. 1) crowded_ledger)
       \<lparr> getPastEvents := countingProvider crowded_ledger \<rparr>"

text \<open>The contract created at block \<open>5\<close> of the same chain.\<close>

definition late_contract_manager :: manager where
  "late_contract_manager = quiet_manager \<lparr> creationBlockNumberHashStorage := 5 \<rparr>"

text \<open>A provider that fails on every range that starts before block \<open>5\<close>.\<close>

definition after_creation_only :: "int \<Rightarrow> int \<Rightarrow> string + log_event list" where
  "after_creation_only fromBlock toBlock =
     (if fromBlock < 5 then Inl ''Error: the contract does not exist yet''
      else getPastEvents quiet_manager fromBlock toBlock)"

text \<open>Confirmations \<open>0\<close> to \<open>22\<close>, each while the block index cannot reach the head.\<close>

definition lagging_confirmations :: "signal list" where
  "lagging_confirmations =
     map (\<lambda>k. OnConfirmation k mined_receipt lagging_manager) [0..22]"





section \<open>Range splitting: what the halves return\<close>

lemma intervalHalf_bounds:
  "fromBlock < toBlock \<Longrightarrow>
     fromBlock \<le> intervalHalf fromBlock toBlock \<and> intervalHalf fromBlock toBlock < toBlock"
  unfolding intervalHalf_def by linarith

lemma unlimited_query_beyond:
  "\<forall>e \<in> set ledger. hi < blockNumber e \<Longrightarrow> unlimited_query ledger lo hi = []"
  unfolding unlimited_query_def by (induction ledger) auto

text \<open>On a ledger in block order, the two halves of a range concatenate to the range.\<close>

lemma unlimited_query_split:
  assumes "sorted (map blockNumber ledger)" and "lo \<le> mid + 1" and "mid \<le> hi"
  shows "unlimited_query ledger lo mid @ unlimited_query ledger (mid + 1) hi
           = unlimited_query ledger lo hi"
  using assms(1)
proof (induction ledger)
  case Nil
  show ?case by (simp add: unlimited_query_def)
next
  case (Cons e rest)
  have rest: "unlimited_query rest lo mid @ unlimited_query rest (mid + 1) hi
                = unlimited_query rest lo hi"
    using Cons by simp
  have later: "\<forall>x \<in> set rest. blockNumber e \<le> blockNumber x"
    using Cons.prems by simp
  show ?case
  proof (cases "mid < blockNumber e")
    case True
    then have "\<forall>x \<in> set rest. mid < blockNumber x"
      using later by force
    then have none: "unlimited_query rest lo mid = []"
      by (rule unlimited_query_beyond)
    from True none rest assms(2) show ?thesis
      by (auto simp: unlimited_query_def)
  next
    case False
    with rest assms(3) show ?thesis
      by (auto simp: unlimited_query_def)
  qed
qed

lemma split_resolves:
  assumes "sorted (map blockNumber ledger)"
    and "\<forall>f t. getPastEvents m f t = Inr (unlimited_query ledger f t) \<or>
            (\<exists>e. getPastEvents m f t = Inl e \<and> MORE_THAN_XXX_RESULTS_REGEX e)"
  shows "fromBlock \<le> toBlock \<Longrightarrow> nat (toBlock - fromBlock) < fuel \<Longrightarrow>
     (\<forall>b. fromBlock \<le> b \<and> b \<le> toBlock \<longrightarrow>
        getPastEvents m b b = Inr (unlimited_query ledger b b)) \<Longrightarrow>
     recursiveGetPastEvents fuel m fromBlock (Number toBlock)
       = Some (Inr (unlimited_query ledger fromBlock toBlock))"
proof (induction fuel arbitrary: fromBlock toBlock)
  case 0
  then show ?case by simp
next
  case (Suc k)
  consider (ok) "getPastEvents m fromBlock toBlock = Inr (unlimited_query ledger fromBlock toBlock)"
    | (over) e where "getPastEvents m fromBlock toBlock = Inl e" "MORE_THAN_XXX_RESULTS_REGEX e"
    using assms(2) by blast
  then show ?case
  proof cases
    case ok
    then show ?thesis by simp
  next
    case over
    have "fromBlock \<noteq> toBlock"
      using over(1) Suc.prems(3) by auto
    with Suc.prems(1) have lt: "fromBlock < toBlock" by simp
    define mid where "mid = intervalHalf fromBlock toBlock"
    have mid: "fromBlock \<le> mid" "mid < toBlock"
      using intervalHalf_bounds [OF lt] by (simp_all add: mid_def)
    have first: "recursiveGetPastEvents k m fromBlock (Number mid)
                   = Some (Inr (unlimited_query ledger fromBlock mid))"
      using mid Suc.prems by (intro Suc.IH) auto
    have second: "recursiveGetPastEvents k m (mid + 1) (Number toBlock)
                   = Some (Inr (unlimited_query ledger (mid + 1) toBlock))"
      using mid Suc.prems by (intro Suc.IH) auto
    have "unlimited_query ledger fromBlock mid @ unlimited_query ledger (mid + 1) toBlock
            = unlimited_query ledger fromBlock toBlock"
      using mid by (intro unlimited_query_split [OF assms(1)]) auto
    with over first second show ?thesis
      by (simp add: mid_def [symmetric] flatten2DimensionsArray_def)
  qed
qed

text \<open>A block reference that resolves to a number is queried as that number.\<close>

lemma resolved_reference:
  "getBlockNumberFromNumberOrString m toBlock = Inr t \<Longrightarrow>
     recursiveGetPastEvents fuel m fromBlock toBlock
       = recursiveGetPastEvents fuel m fromBlock (Number t)"
  by (cases fuel) simp_all

section \<open>Range splitting: when the recursion settles\<close>

lemma promise_all2_settles:
  "promise_all2 (Some p) (Some q) \<noteq> None"
  by (cases p; cases q) auto

lemma promise_then_settles:
  "p \<noteq> None \<Longrightarrow> promise_then p f \<noteq> None"
  by (cases "(p, f)" rule: promise_then.cases) auto

lemma split_settles:
  "fromBlock \<le> toBlock \<Longrightarrow> nat (toBlock - fromBlock) < fuel \<Longrightarrow>
     (\<forall>b e. fromBlock \<le> b \<and> b \<le> toBlock \<and> getPastEvents m b b = Inl e
        \<longrightarrow> \<not> MORE_THAN_XXX_RESULTS_REGEX e) \<Longrightarrow>
     recursiveGetPastEvents fuel m fromBlock (Number toBlock) \<noteq> None"
proof (induction fuel arbitrary: fromBlock toBlock)
  case 0
  then show ?case by simp
next
  case (Suc k)
  show ?case
  proof (cases "getPastEvents m fromBlock toBlock")
    case (Inr events)
    then show ?thesis by simp
  next
    case (Inl e)
    show ?thesis
    proof (cases "MORE_THAN_XXX_RESULTS_REGEX e")
      case False
      with Inl show ?thesis by simp
    next
      case True
      have "fromBlock \<noteq> toBlock"
        using Inl True Suc.prems(3) by auto
      with Suc.prems(1) have lt: "fromBlock < toBlock" by simp
      define mid where "mid = intervalHalf fromBlock toBlock"
      have mid: "fromBlock \<le> mid" "mid < toBlock"
        using intervalHalf_bounds [OF lt] by (simp_all add: mid_def)
      have inner: "\<forall>b e. fromBlock \<le> b \<and> b \<le> mid \<and> getPastEvents m b b = Inl e
                     \<longrightarrow> \<not> MORE_THAN_XXX_RESULTS_REGEX e"
      proof (intro allI impI)
        fix b e
        assume h: "fromBlock \<le> b \<and> b \<le> mid \<and> getPastEvents m b b = Inl e"
        then have "b \<le> toBlock" using mid(2) by linarith
        with h Suc.prems(3) show "\<not> MORE_THAN_XXX_RESULTS_REGEX e" by blast
      qed
      have outer: "\<forall>b e. mid + 1 \<le> b \<and> b \<le> toBlock \<and> getPastEvents m b b = Inl e
                     \<longrightarrow> \<not> MORE_THAN_XXX_RESULTS_REGEX e"
      proof (intro allI impI)
        fix b e
        assume h: "mid + 1 \<le> b \<and> b \<le> toBlock \<and> getPastEvents m b b = Inl e"
        then have "fromBlock \<le> b" using mid(1) by linarith
        with h Suc.prems(3) show "\<not> MORE_THAN_XXX_RESULTS_REGEX e" by blast
      qed
      have "recursiveGetPastEvents k m fromBlock (Number mid) \<noteq> None"
        using mid Suc.prems(2) inner by (intro Suc.IH) auto
      then obtain p where first: "recursiveGetPastEvents k m fromBlock (Number mid) = Some p"
        by auto
      have "recursiveGetPastEvents k m (mid + 1) (Number toBlock) \<noteq> None"
        using mid Suc.prems(2) outer by (intro Suc.IH) auto
      then obtain q where second: "recursiveGetPastEvents k m (mid + 1) (Number toBlock) = Some q"
        by auto
      from Inl True first second show ?thesis
        by (simp add: mid_def [symmetric] promise_all2_settles promise_then_settles)
    qed
  qed
qed

section \<open>Range splitting: a block that overflows on its own\<close>

lemma promise_all2_not_resolved:
  "(\<forall>a. p \<noteq> Some (Inr a)) \<or> (\<forall>b. q \<noteq> Some (Inr b)) \<Longrightarrow>
     promise_all2 p q \<noteq> Some (Inr v)"
  by (cases "(p, q)" rule: promise_all2.cases) auto

lemma promise_then_not_resolved:
  "(\<forall>v. p \<noteq> Some (Inr v)) \<Longrightarrow> promise_then p f \<noteq> Some (Inr w)"
  by (cases "(p, f)" rule: promise_then.cases) auto

text \<open>
  When every range that holds block \<open>b\<close> overflows, no depth of recursion resolves a
  range that holds \<open>b\<close>: the half with \<open>b\<close> in it is queried again and again.
\<close>

lemma overflowing_block_never_resolves:
  assumes "\<forall>f t. f \<le> b \<and> b \<le> t \<longrightarrow>
             (\<exists>e. getPastEvents m f t = Inl e \<and> MORE_THAN_XXX_RESULTS_REGEX e)"
  shows "fromBlock \<le> b \<Longrightarrow> b \<le> toBlock \<Longrightarrow>
     recursiveGetPastEvents fuel m fromBlock (Number toBlock) \<noteq> Some (Inr events)"
proof (induction fuel arbitrary: fromBlock toBlock events)
  case 0
  then show ?case by simp
next
  case (Suc k)
  obtain e where over: "getPastEvents m fromBlock toBlock = Inl e" "MORE_THAN_XXX_RESULTS_REGEX e"
    using assms Suc.prems by blast
  define mid where "mid = intervalHalf fromBlock toBlock"
  have "(\<forall>a. recursiveGetPastEvents k m fromBlock (Number mid) \<noteq> Some (Inr a)) \<or>
        (\<forall>a. recursiveGetPastEvents k m (mid + 1) (Number toBlock) \<noteq> Some (Inr a))"
  proof (cases "b \<le> mid")
    case True
    then show ?thesis using Suc.IH [of fromBlock mid] Suc.prems by simp
  next
    case False
    then show ?thesis using Suc.IH [of "mid + 1" toBlock] Suc.prems by simp
  qed
  then have "\<forall>v. promise_all2 (recursiveGetPastEvents k m fromBlock (Number mid))
               (recursiveGetPastEvents k m (mid + 1) (Number toBlock)) \<noteq> Some (Inr v)"
    using promise_all2_not_resolved by blast
  then show ?case
    using over by (simp add: mid_def [symmetric] promise_then_not_resolved)
qed

text \<open>
  A single block that overflows: the first half is the same single block, the second
  half is the empty range after it, and the promise of the pair never settles.
\<close>

lemma single_block_overflow_pending:
  assumes "getPastEvents m b b = Inl e" and "MORE_THAN_XXX_RESULTS_REGEX e"
    and "getPastEvents m (b + 1) b = Inr evs"
  shows "recursiveGetPastEvents fuel m b (Number b) = None"
proof (induction fuel)
  case 0
  show ?case by simp
next
  case (Suc k)
  have half: "intervalHalf b b = b"
    by (simp add: intervalHalf_def)
  have "recursiveGetPastEvents k m (b + 1) (Number b) = None \<or>
        recursiveGetPastEvents k m (b + 1) (Number b) = Some (Inr evs)"
    using assms(3) by (cases k) simp_all
  then show ?case
    using assms(1,2) Suc.IH by (auto simp: half)
qed

section \<open>The result-limited provider\<close>

lemma overflow_message_matches:
  "MORE_THAN_XXX_RESULTS_REGEX ''Error: query returned more than 1000 results''"
  by (simp add: match_here_def is_digit_def is_nonzero_digit_def)

lemma limitedProvider_answers:
  "limitedProvider txPerBlock ledger f t = Inr (unlimited_query ledger f t) \<or>
   (\<exists>e. limitedProvider txPerBlock ledger f t = Inl e \<and> MORE_THAN_XXX_RESULTS_REGEX e)"
  using overflow_message_matches by (simp add: limitedProvider_def)

lemma getPastEvents_mock_manager [simp]:
  "getPastEvents (mock_manager txPerBlock ledger) = limitedProvider txPerBlock ledger"
  by (simp add: mock_manager_def)

lemma pastEventsMock_sorted: "sorted (map blockNumber pastEventsMock)"
  by (simp add: pastEventsMock_def new_hash_def)

lemma countingProvider_answers:
  "countingProvider ledger f t = Inr (unlimited_query ledger f t) \<or>
   (\<exists>e. countingProvider ledger f t = Inl e \<and> MORE_THAN_XXX_RESULTS_REGEX e)"
  using overflow_message_matches by (simp add: countingProvider_def)

text \<open>Every range of the crowded ledger that holds block \<open>3\<close> is refused.\<close>

lemma crowded_block_count:
  assumes "f \<le> 3" and "3 \<le> t"
  shows "1000 < length (unlimited_query crowded_ledger f t)"
proof -
  define crowd where "crowd = new_hash 3 ''0xe'' ''crowd'' ''0x1d''"
  define inside where "inside = (\<lambda>e :: log_event. f \<le> blockNumber e \<and> blockNumber e \<le> t)"
  have "inside crowd"
    using assms by (simp add: inside_def crowd_def new_hash_def)
  then have "filter inside (replicate 1001 crowd) = replicate 1001 crowd"
    by simp
  then have "length (filter inside (replicate 1001 crowd)) = 1001"
    by simp
  moreover have "length (filter inside (replicate 1001 crowd))
                   \<le> length (unlimited_query crowded_ledger f t)"
    by (simp add: unlimited_query_def crowded_ledger_def inside_def crowd_def)
  ultimately show ?thesis by linarith
qed

lemma crowded_block_overflows:
  "\<forall>f t. f \<le> 3 \<and> 3 \<le> t \<longrightarrow>
     (\<exists>e. getPastEvents crowded_manager f t = Inl e \<and> MORE_THAN_XXX_RESULTS_REGEX e)"
  using overflow_message_matches crowded_block_count
  by (simp add: crowded_manager_def countingProvider_def)

section \<open>C1: the split retrieval against a single unlimited query\<close>

text \<open>
  C1, as amended. The ledger's log is in block order. For every provider that answers a
  range query with the events of the range or with a result-count overflow, and that
  does not overflow on any single block of \<open>[fromBlock, toBlock]\<close>, the recursive
  retrieval over a range with \<open>fromBlock \<le> toBlock\<close> settles within a recursion depth
  of \<open>toBlock - fromBlock + 1\<close> calls and resolves with exactly the ordered event list of
  a single unlimited query over \<open>[fromBlock, toBlock]\<close>: nothing lost, nothing
  duplicated, the first half's events before the second half's.
\<close>

theorem recursiveGetPastEvents_equals_unlimited_query:
  assumes "sorted (map blockNumber ledger)"
    and "\<forall>f t. getPastEvents m f t = Inr (unlimited_query ledger f t) \<or>
            (\<exists>e. getPastEvents m f t = Inl e \<and> MORE_THAN_XXX_RESULTS_REGEX e)"
    and "\<forall>b. fromBlock \<le> b \<and> b \<le> toBlock \<longrightarrow>
            getPastEvents m b b = Inr (unlimited_query ledger b b)"
    and "fromBlock \<le> toBlock"
    and "nat (toBlock - fromBlock) < fuel"
  shows "recursiveGetPastEvents fuel m fromBlock (Number toBlock)
           = Some (Inr (unlimited_query ledger fromBlock toBlock))"
  using split_resolves [OF assms(1,2,4,5,3)] .

text \<open>
  The ten-block chain with 999 results in every block: the query over \<open>[0, 9]\<close>
  overflows, the recursion reaches single blocks, and the four events come back in
  order.
\<close>

theorem recursiveGetPastEvents_equals_unlimited_query_witness:
  "recursiveGetPastEvents 10 busy_manager 0 (Number 9)
     = Some (Inr (unlimited_query pastEventsMock 0 9)) \<and>
   unlimited_query pastEventsMock 0 9 = pastEventsMock \<and>
   (\<exists>e. getPastEvents busy_manager 0 9 = Inl e \<and> MORE_THAN_XXX_RESULTS_REGEX e)"
proof -
  have cls: "\<forall>f t. getPastEvents busy_manager f t = Inr (unlimited_query pastEventsMock f t) \<or>
            (\<exists>e. getPastEvents busy_manager f t = Inl e \<and> MORE_THAN_XXX_RESULTS_REGEX e)"
    using limitedProvider_answers by (simp add: busy_manager_def)
  have single: "\<forall>b. (0::int) \<le> b \<and> b \<le> 9 \<longrightarrow>
            getPastEvents busy_manager b b = Inr (unlimited_query pastEventsMock b b)"
    by (simp add: busy_manager_def limitedProvider_def)
  have "recursiveGetPastEvents 10 busy_manager 0 (Number 9)
          = Some (Inr (unlimited_query pastEventsMock 0 9))"
    using recursiveGetPastEvents_equals_unlimited_query
      [OF pastEventsMock_sorted cls single, of 10] by simp
  moreover have "unlimited_query pastEventsMock 0 9 = pastEventsMock"
    by (simp add: unlimited_query_def pastEventsMock_def new_hash_def)
  moreover have "\<exists>e. getPastEvents busy_manager 0 9 = Inl e \<and> MORE_THAN_XXX_RESULTS_REGEX e"
    using overflow_message_matches
    by (simp add: busy_manager_def limitedProvider_def sum_list_triv)
  ultimately show ?thesis by simp
qed

text \<open>
  C1 as stated fails: the provider of \<open>crowded_manager\<close> answers every range query with
  the events of the range or with an overflow, but block \<open>3\<close>, with its 1001 events,
  overflows on its own, and no recursion depth makes the retrieval over \<open>[0, 9]\<close>
  resolve with the events of the unlimited query.
\<close>

theorem recursiveGetPastEvents_equals_unlimited_query_counterexample:
  "sorted (map blockNumber crowded_ledger) \<and>
   (\<forall>f t. getPastEvents crowded_manager f t = Inr (unlimited_query crowded_ledger f t) \<or>
      (\<exists>e. getPastEvents crowded_manager f t = Inl e \<and> MORE_THAN_XXX_RESULTS_REGEX e)) \<and>
   \<not> (\<exists>fuel. recursiveGetPastEvents fuel crowded_manager 0 (Number 9)
               = Some (Inr (unlimited_query crowded_ledger 0 9)))"
proof -
  have ordered: "sorted (map blockNumber crowded_ledger)"
    by (simp add: crowded_ledger_def new_hash_def sorted_append)
  have cls: "\<forall>f t. getPastEvents crowded_manager f t = Inr (unlimited_query crowded_ledger f t) \<or>
            (\<exists>e. getPastEvents crowded_manager f t = Inl e \<and> MORE_THAN_XXX_RESULTS_REGEX e)"
    using countingProvider_answers by (simp add: crowded_manager_def)
  have "\<And>fuel. recursiveGetPastEvents fuel crowded_manager 0 (Number 9)
               \<noteq> Some (Inr (unlimited_query crowded_ledger 0 9))"
    by (rule overflowing_block_never_resolves [OF crowded_block_overflows]) simp_all
  with ordered cls show ?thesis by blast
qed

section \<open>C2: termination of the split retrieval\<close>

text \<open>
  C2, as amended. For every range with \<open>fromBlock \<le> toBlock\<close> and every provider
  (whatever events or errors its queries give) that signals no overflow on a single
  block of the range, the recursive retrieval settles, with events or with an error,
  within a recursion depth of \<open>toBlock - fromBlock + 1\<close> calls; and the midpoint split
  of a range of more than one block gives two non-empty sub-ranges, each strictly
  shorter than the range.
\<close>

theorem recursiveGetPastEvents_terminates:
  assumes "fromBlock \<le> toBlock"
    and "\<forall>b e. fromBlock \<le> b \<and> b \<le> toBlock \<and> getPastEvents m b b = Inl e
           \<longrightarrow> \<not> MORE_THAN_XXX_RESULTS_REGEX e"
    and "nat (toBlock - fromBlock) < fuel"
  shows "(\<exists>outcome. recursiveGetPastEvents fuel m fromBlock (Number toBlock) = Some outcome) \<and>
         (fromBlock < toBlock \<longrightarrow>
            fromBlock \<le> intervalHalf fromBlock toBlock \<and>
            intervalHalf fromBlock toBlock + 1 \<le> toBlock \<and>
            intervalHalf fromBlock toBlock - fromBlock < toBlock - fromBlock \<and>
            toBlock - (intervalHalf fromBlock toBlock + 1) < toBlock - fromBlock)"
proof -
  have "recursiveGetPastEvents fuel m fromBlock (Number toBlock) \<noteq> None"
    using split_settles [OF assms(1,3,2)] .
  moreover have "fromBlock < toBlock \<longrightarrow>
            fromBlock \<le> intervalHalf fromBlock toBlock \<and>
            intervalHalf fromBlock toBlock + 1 \<le> toBlock \<and>
            intervalHalf fromBlock toBlock - fromBlock < toBlock - fromBlock \<and>
            toBlock - (intervalHalf fromBlock toBlock + 1) < toBlock - fromBlock"
    using intervalHalf_bounds [of fromBlock toBlock] by auto
  ultimately show ?thesis by auto
qed

text \<open>The chain with 999 results in every block, over \<open>[0, 9]\<close>.\<close>

theorem recursiveGetPastEvents_terminates_witness:
  "(\<exists>outcome. recursiveGetPastEvents 10 busy_manager 0 (Number 9) = Some outcome) \<and>
   0 \<le> intervalHalf 0 9 \<and> intervalHalf 0 9 + 1 \<le> 9 \<and>
   intervalHalf 0 9 - 0 < 9 - 0 \<and> 9 - (intervalHalf 0 9 + 1) < 9 - 0"
proof -
  have single: "\<forall>b e. (0::int) \<le> b \<and> b \<le> 9 \<and> getPastEvents busy_manager b b = Inl e
           \<longrightarrow> \<not> MORE_THAN_XXX_RESULTS_REGEX e"
    by (simp add: busy_manager_def limitedProvider_def)
  show ?thesis
    using recursiveGetPastEvents_terminates [of 0 9 busy_manager 10, OF _ single] by simp
qed

text \<open>
  C2 as stated fails: on \<open>crowded_manager\<close> the single-block range \<open>[3, 3]\<close> triggers the
  overflow, and the call neither fails nor returns at any recursion depth: it queries
  \<open>[3, 3]\<close> again. The file has no error for a range that cannot be split.
\<close>

theorem recursiveGetPastEvents_terminates_counterexample:
  "(\<exists>e. getPastEvents crowded_manager 3 3 = Inl e \<and> MORE_THAN_XXX_RESULTS_REGEX e) \<and>
   (\<forall>fuel. recursiveGetPastEvents fuel crowded_manager 3 (Number 3) = None)"
proof -
  obtain e where over: "getPastEvents crowded_manager 3 3 = Inl e"
    and matches: "MORE_THAN_XXX_RESULTS_REGEX e"
    using crowded_block_overflows by blast
  have after: "getPastEvents crowded_manager (3 + 1) 3
                 = Inr (unlimited_query crowded_ledger (3 + 1) 3)"
    by (simp add: crowded_manager_def countingProvider_def unlimited_query_def
        crowded_ledger_def new_hash_def)
  have "\<And>fuel. recursiveGetPastEvents fuel crowded_manager 3 (Number 3) = None"
    by (rule single_block_overflow_pending [OF over matches after])
  with over matches show ?thesis by blast
qed

section \<open>C3: a range that ends at block 0\<close>

text \<open>A resolved \<open>toBlock\<close> other than \<open>0\<close> that lies below \<open>fromBlock\<close> is rejected.\<close>

lemma resolveBlockRange_ordered:
  "resolveBlockRange m options = Inr (fromBlock, Some toBlock) \<Longrightarrow>
     toBlock = 0 \<or> fromBlock \<le> toBlock"
  by (auto simp: resolveBlockRange_def split: option.splits sum.splits if_splits)

lemma resolveBlockRange_rejects:
  "getBlockNumbersFromTimestamp m f = Inr before \<Longrightarrow> getBlockNumbersFromTimestamp m t = Inr after \<Longrightarrow>
   f \<noteq> 0 \<Longrightarrow> t \<noteq> 0 \<Longrightarrow> blockBefore after \<noteq> 0 \<Longrightarrow> blockBefore after < blockAfter before \<Longrightarrow>
     getHashesAndSizesFromEthereum fuel m (Some \<lparr>from_ts = Some f, to_ts = Some t\<rparr>)
       = Some (Inl (ToBlockMustBeLargerThanFromBlock (blockAfter before) (blockBefore after)))"
  by (simp add: getHashesAndSizesFromEthereum_def resolveBlockRange_def truthy_field_def)

text \<open>
  A resolved \<open>toBlock\<close> of \<open>0\<close> is never rejected, whatever \<open>fromBlock\<close> is: the call
  is the scan from \<open>fromBlock\<close> to \<^verbatim>\<open>'latest'\<close>.
\<close>

lemma resolveBlockRange_accepts_block_zero:
  "getBlockNumbersFromTimestamp m f = Inr before \<Longrightarrow> getBlockNumbersFromTimestamp m t = Inr after \<Longrightarrow>
   f \<noteq> 0 \<Longrightarrow> t \<noteq> 0 \<Longrightarrow> blockBefore after = 0 \<Longrightarrow>
     getHashesAndSizesFromEthereum fuel m (Some \<lparr>from_ts = Some f, to_ts = Some t\<rparr>)
       = getHashesAndSizesFromEvents fuel m (blockAfter before) None"
  by (simp add: getHashesAndSizesFromEthereum_def resolveBlockRange_def truthy_field_def
      getHashesAndSizesFromEvents_def)

lemma inverted_range_resolved:
  "resolveBlockRange quiet_manager (Some \<lparr>from_ts = Some 200, to_ts = Some 10\<rparr>)
     = Inr (6, Some 0)"
  by (simp add: resolveBlockRange_def truthy_field_def quiet_manager_def mock_manager_def
      block_time_index_def mock_timestamp_def mockBlocksEthereum_def)

lemma events_from_block_6:
  "\<exists>entries. getHashesAndSizesFromEvents 1 quiet_manager 6 (Some (Number 0)) = Some (Inr entries) \<and>
     map (m_blockNumber \<circ> e_meta) entries = [6, 9]"
  by (simp add: getHashesAndSizesFromEvents_def
      quiet_manager_def mock_manager_def limitedProvider_def sum_list_triv
      unlimited_query_def pastEventsMock_def new_hash_def checkAndAddMetaDataToEvent_def
      createEthereumMetaData_def mock_hexToNumber_def)

text \<open>
  C3, at the input where the code departs from it. On the ten-block chain
  \<open>{from = 200, to = 10}\<close> resolves to \<open>fromBlock = 6\<close> and \<open>toBlock = 0\<close>. The test
  \<^verbatim>\<open>toBlock && toBlock < fromBlock\<close> takes the block number \<open>0\<close> for a missing bound, so
  nothing is thrown; \<^verbatim>\<open>toBlock || 'latest'\<close> then turns it into \<^verbatim>\<open>'latest'\<close>, and the
  range query over blocks \<open>6\<close> to \<open>9\<close> is made and answered.
\<close>

theorem getHashesAndSizesFromEthereum_block_zero_bound:
  "resolveBlockRange quiet_manager (Some \<lparr>from_ts = Some 200, to_ts = Some 10\<rparr>)
     = Inr (6, Some 0) \<and>
   (\<exists>entries. getHashesAndSizesFromEthereum 1 quiet_manager
                 (Some \<lparr>from_ts = Some 200, to_ts = Some 10\<rparr>) = Some (Inr entries) \<and>
      map (m_blockNumber \<circ> e_meta) entries = [6, 9])"
  using events_from_block_6
  by (simp add: getHashesAndSizesFromEthereum_def inverted_range_resolved)

section \<open>Submission: a settled promise stays settled\<close>

lemma settled_stays:
  "promise s = Some outcome \<Longrightarrow> promise (on_signal fee gp s sig) = Some outcome"
  by (cases sig) (auto simp: resolve_def reject_def split: sum.splits)

lemma settled_stays_all:
  "promise s = Some outcome \<Longrightarrow> promise (foldl (on_signal fee gp) s signals) = Some outcome"
  by (induction signals arbitrary: s) (simp_all add: settled_stays)

lemma fails_below_cap_ignored:
  "fails_below_cap fee gp sig \<Longrightarrow> \<not> ethereumMetadataCreated s \<Longrightarrow> on_signal fee gp s sig = s"
  by (cases sig) (auto split: sum.splits)

lemma fails_below_cap_all:
  "list_all (fails_below_cap fee gp) signals \<Longrightarrow> \<not> ethereumMetadataCreated s \<Longrightarrow>
     foldl (on_signal fee gp) s signals = s"
  by (induction signals arbitrary: s) (simp_all add: fails_below_cap_ignored)

lemma created_settled:
  "(ethereumMetadataCreated s \<longrightarrow> promise s \<noteq> None) \<Longrightarrow>
   ethereumMetadataCreated (on_signal fee gp s sig) \<longrightarrow> promise (on_signal fee gp s sig) \<noteq> None"
  by (cases sig) (auto simp: resolve_def reject_def split: sum.splits option.splits)

lemma created_settled_all:
  "(ethereumMetadataCreated s \<longrightarrow> promise s \<noteq> None) \<Longrightarrow>
   ethereumMetadataCreated (foldl (on_signal fee gp) s signals) \<longrightarrow>
     promise (foldl (on_signal fee gp) s signals) \<noteq> None"
proof (induction signals arbitrary: s)
  case Nil
  then show ?case by simp
next
  case (Cons sig signals)
  show ?case
    using Cons.IH [OF created_settled [OF Cons.prems]] by simp
qed

lemma settling_signal:
  "\<not> fails_below_cap fee gp sig \<Longrightarrow> promise (on_signal fee gp submitted sig) \<noteq> None"
  by (cases sig) (auto simp: submitted_def resolve_def reject_def split: sum.splits)

lemma first_settling_signal:
  "\<not> list_all P xs \<Longrightarrow> \<exists>pre x post. xs = pre @ x # post \<and> list_all P pre \<and> \<not> P x"
proof (induction xs)
  case Nil
  then show ?case by simp
next
  case (Cons a xs)
  show ?case
  proof (cases "P a")
    case False
    then have "a # xs = [] @ a # xs \<and> list_all P [] \<and> \<not> P a" by simp
    then show ?thesis by blast
  next
    case True
    with Cons obtain pre x post where "xs = pre @ x # post" "list_all P pre" "\<not> P x"
      by auto
    with True have "a # xs = (a # pre) @ x # post \<and> list_all P (a # pre) \<and> \<not> P x" by simp
    then show ?thesis by blast
  qed
qed

lemma pending_iff:
  "(promise (foldl (on_signal fee gp) submitted signals) = None)
     = list_all (fails_below_cap fee gp) signals"
proof (cases "list_all (fails_below_cap fee gp) signals")
  case True
  then have "foldl (on_signal fee gp) submitted signals = submitted"
    by (intro fails_below_cap_all) (simp_all add: submitted_def)
  with True show ?thesis by (simp add: submitted_def)
next
  case False
  then obtain pre x post where split: "signals = pre @ x # post"
    and pre: "list_all (fails_below_cap fee gp) pre" and x: "\<not> fails_below_cap fee gp x"
    using first_settling_signal by blast
  have "foldl (on_signal fee gp) submitted pre = submitted"
    using pre by (intro fails_below_cap_all) (simp_all add: submitted_def)
  moreover obtain outcome where "promise (on_signal fee gp submitted x) = Some outcome"
    using settling_signal [OF x] by blast
  ultimately have "promise (foldl (on_signal fee gp) submitted signals) = Some outcome"
    unfolding split by (simp add: settled_stays_all)
  with False show ?thesis by simp
qed

lemma lagging_attempt:
  "metadata_attempt fee gp mined_receipt lagging_manager
     = Inl (ErrorGettingBlockConfirmationNumber ''Error: block not found'')"
  by (simp add: metadata_attempt_def createEthereumMetaData_def lagging_manager_def
      mock_manager_def)

lemma lagging_confirmations_fail:
  "list_all (fails_below_cap fee gp) lagging_confirmations"
  by (simp add: lagging_confirmations_def list_all_iff lagging_attempt
      CREATING_ETHEREUM_METADATA_MAX_ATTEMPTS_def)

section \<open>C4: the cap on confirmation signals\<close>

text \<open>
  C4. A submission whose metadata attempt has failed on every confirmation so far,
  all numbered below \<open>CREATING_ETHEREUM_METADATA_MAX_ATTEMPTS = 23\<close>, is still pending;
  the confirmation numbered \<open>23\<close> or more whose attempt fails as well rejects the
  promise with "Maximum number of confirmation reached", whatever signals follow.
\<close>

theorem confirmation_cap_rejects:
  assumes "list_all (fails_below_cap fee gp) before"
    and "metadata_attempt fee gp r m = Inl e"
    and "CREATING_ETHEREUM_METADATA_MAX_ATTEMPTS \<le> n"
  shows "CREATING_ETHEREUM_METADATA_MAX_ATTEMPTS = 23 \<and>
         addHashAndSizeToEthereum fee gp before = None \<and>
         addHashAndSizeToEthereum fee gp (before @ OnConfirmation n r m # later)
           = Some (Inl (MaximumNumberOfConfirmationReached e))"
proof -
  have pending: "foldl (on_signal fee gp) submitted before = submitted"
    using assms(1) by (intro fails_below_cap_all) (simp_all add: submitted_def)
  have "promise (on_signal fee gp submitted (OnConfirmation n r m))
          = Some (Inl (MaximumNumberOfConfirmationReached e))"
    using assms(2,3) by (simp add: submitted_def reject_def)
  then have "promise (foldl (on_signal fee gp)
                 (on_signal fee gp submitted (OnConfirmation n r m)) later)
          = Some (Inl (MaximumNumberOfConfirmationReached e))"
    by (rule settled_stays_all)
  with pending show ?thesis
    by (simp add: addHashAndSizeToEthereum_def submitted_def
        CREATING_ETHEREUM_METADATA_MAX_ATTEMPTS_def)
qed

text \<open>
  Confirmations \<open>0\<close> to \<open>22\<close> with the head out of reach leave the promise pending;
  confirmation \<open>23\<close> rejects it.
\<close>

theorem confirmation_cap_rejects_witness:
  "list_all (fails_below_cap 5 2) lagging_confirmations \<and>
   addHashAndSizeToEthereum 5 2 lagging_confirmations = None \<and>
   addHashAndSizeToEthereum 5 2
       (lagging_confirmations @ [OnConfirmation 23 mined_receipt lagging_manager])
     = Some (Inl (MaximumNumberOfConfirmationReached
                    (ErrorGettingBlockConfirmationNumber ''Error: block not found'')))"
  using confirmation_cap_rejects
      [where fee = 5 and gp = 2 and n = 23 and later = "[]",
       OF lagging_confirmations_fail lagging_attempt]
    lagging_confirmations_fail [of 5 2]
  by (simp add: CREATING_ETHEREUM_METADATA_MAX_ATTEMPTS_def)

section \<open>C5: one outcome at most\<close>

text \<open>
  C5, as amended. For every sequence of error and confirmation signals the promise of a
  submission settles at most once: an outcome (the metadata, or a terminal failure)
  that the signals so far have produced is the outcome after any later signals. No
  outcome is produced exactly while every signal has been a confirmation below the cap
  whose metadata attempt failed. Once the metadata has been built the promise is
  settled, and a later confirmation signal leaves the whole state as it is: nothing
  is computed again.
\<close>

theorem submission_settles_at_most_once:
  "(addHashAndSizeToEthereum fee gp signals = Some outcome \<longrightarrow>
      addHashAndSizeToEthereum fee gp (signals @ later) = Some outcome) \<and>
   ((addHashAndSizeToEthereum fee gp signals = None)
      = list_all (fails_below_cap fee gp) signals) \<and>
   (ethereumMetadataCreated (foldl (on_signal fee gp) submitted signals) \<longrightarrow>
      addHashAndSizeToEthereum fee gp signals \<noteq> None \<and>
      on_signal fee gp (foldl (on_signal fee gp) submitted signals) (OnConfirmation n r m)
        = foldl (on_signal fee gp) submitted signals)"
proof -
  have "ethereumMetadataCreated (foldl (on_signal fee gp) submitted signals) \<longrightarrow>
          promise (foldl (on_signal fee gp) submitted signals) \<noteq> None"
    by (rule created_settled_all) (simp add: submitted_def)
  then show ?thesis
    by (simp add: addHashAndSizeToEthereum_def settled_stays_all pending_iff)
qed

text \<open>
  The first confirmation builds the metadata; a confirmation with the head out of
  reach and an error signal that follow change nothing.
\<close>

theorem submission_settles_at_most_once_witness:
  "(\<exists>md. addHashAndSizeToEthereum 5 2 [OnConfirmation 1 mined_receipt quiet_manager]
            = Some (Inr md) \<and>
          addHashAndSizeToEthereum 5 2
              ([OnConfirmation 1 mined_receipt quiet_manager] @
               [OnConfirmation 24 mined_receipt lagging_manager, OnError ''reverted''])
            = Some (Inr md) \<and> m_blockNumber md = 4 \<and> m_cost md = Some 42005) \<and>
   ethereumMetadataCreated
     (foldl (on_signal 5 2) submitted [OnConfirmation 1 mined_receipt quiet_manager]) \<and>
   on_signal 5 2
       (foldl (on_signal 5 2) submitted [OnConfirmation 1 mined_receipt quiet_manager])
       (OnConfirmation 24 mined_receipt lagging_manager)
     = foldl (on_signal 5 2) submitted [OnConfirmation 1 mined_receipt quiet_manager]"
proof -
  obtain md where built: "metadata_attempt 5 2 mined_receipt quiet_manager = Inr md"
    and md: "m_blockNumber md = 4" "m_cost md = Some 42005"
    by (simp add: metadata_attempt_def createEthereumMetaData_def quiet_manager_def
        mock_manager_def mined_receipt_def)
  have first: "addHashAndSizeToEthereum 5 2 [OnConfirmation 1 mined_receipt quiet_manager]
                 = Some (Inr md)"
    using built by (simp add: addHashAndSizeToEthereum_def submitted_def resolve_def)
  have created: "ethereumMetadataCreated
     (foldl (on_signal 5 2) submitted [OnConfirmation 1 mined_receipt quiet_manager])"
    using built by (simp add: submitted_def resolve_def)
  note once = submission_settles_at_most_once
    [of 5 2 "[OnConfirmation 1 mined_receipt quiet_manager]" "Inr md"
        "[OnConfirmation 24 mined_receipt lagging_manager, OnError ''reverted'']"
        24 mined_receipt lagging_manager]
  from once first created md show ?thesis by blast
qed

text \<open>
  C5 as stated fails: after a confirmation whose metadata attempt fails below the cap,
  the signals so far have produced no outcome at all.
\<close>

theorem submission_settles_at_most_once_counterexample:
  "addHashAndSizeToEthereum 5 2 [OnConfirmation 0 mined_receipt lagging_manager] = None"
  by (simp add: addHashAndSizeToEthereum_def submitted_def lagging_attempt
      CREATING_ETHEREUM_METADATA_MAX_ATTEMPTS_def)

section \<open>The first event that anchors a hash\<close>






section \<open>C6: the metadata of a content hash\<close>






section \<open>The block time index finds the blocks around a timestamp\<close>

text \<open>
  On timestamps that do not decrease over \<open>[lo, hi]\<close>, the search for \<open>blockAfter\<close>
  returns a block of the range below which every timestamp is smaller than the target,
  and whose own timestamp is at least the target unless it is the last block: the
  smallest block with a timestamp at or after the target, or the head when there is
  none.
\<close>

lemma blockAfter_search_correct:
  assumes "\<forall>i j. lo \<le> i \<and> i \<le> j \<and> j \<le> hi \<longrightarrow> ts i \<le> ts j" and "lo \<le> hi"
  shows "lo \<le> blockAfter_search ts target lo hi \<and> blockAfter_search ts target lo hi \<le> hi \<and>
         (\<forall>i. lo \<le> i \<and> i < blockAfter_search ts target lo hi \<longrightarrow> ts i < target) \<and>
         (blockAfter_search ts target lo hi < hi \<longrightarrow>
            target \<le> ts (blockAfter_search ts target lo hi))"
  using assms
proof (induction ts target lo hi rule: blockAfter_search.induct)
  case (1 ts target lo hi)
  show ?case
  proof (cases "lo < hi")
    case False
    then have "blockAfter_search ts target lo hi = lo"
      by (subst blockAfter_search.simps) simp
    with False "1.prems" show ?thesis by simp
  next
    case True
    define mid where "mid = (lo + hi) div 2"
    have mid: "lo \<le> mid" "mid < hi" using True unfolding mid_def by linarith+
    show ?thesis
    proof (cases "target \<le> ts mid")
      case le: True
      have eq: "blockAfter_search ts target lo hi = blockAfter_search ts target lo mid"
        using True le by (subst blockAfter_search.simps) (simp add: mid_def)
      have mono: "\<forall>i j. lo \<le> i \<and> i \<le> j \<and> j \<le> mid \<longrightarrow> ts i \<le> ts j"
      proof (intro allI impI)
        fix i j assume "lo \<le> i \<and> i \<le> j \<and> j \<le> mid"
        then have "lo \<le> i \<and> i \<le> j \<and> j \<le> hi" using mid(2) by linarith
        with "1.prems"(1) show "ts i \<le> ts j" by blast
      qed
      note IH = "1.IH"(1) [OF True le [unfolded mid_def], folded mid_def, OF mono mid(1)]
      show ?thesis
        unfolding eq using IH mid le by (metis less_le not_less order_trans)
    next
      case gt: False
      have eq: "blockAfter_search ts target lo hi = blockAfter_search ts target (mid + 1) hi"
        using True gt by (subst blockAfter_search.simps) (simp add: mid_def)
      have mono: "\<forall>i j. mid + 1 \<le> i \<and> i \<le> j \<and> j \<le> hi \<longrightarrow> ts i \<le> ts j"
      proof (intro allI impI)
        fix i j assume "mid + 1 \<le> i \<and> i \<le> j \<and> j \<le> hi"
        then have "lo \<le> i \<and> i \<le> j \<and> j \<le> hi" using mid(1) by linarith
        with "1.prems"(1) show "ts i \<le> ts j" by blast
      qed
      have hi: "mid + 1 \<le> hi" using mid(2) by linarith
      note IH = "1.IH"(2) [OF True gt [unfolded mid_def], folded mid_def, OF mono hi]
      have below: "ts i < target" if "lo \<le> i" "i \<le> mid" for i
      proof -
        have "ts i \<le> ts mid" using "1.prems"(1) that mid(2) by (meson less_imp_le)
        with gt show ?thesis by linarith
      qed
      have all: "\<forall>i. lo \<le> i \<and> i < blockAfter_search ts target (mid + 1) hi \<longrightarrow> ts i < target"
      proof (intro allI impI)
        fix i assume h: "lo \<le> i \<and> i < blockAfter_search ts target (mid + 1) hi"
        show "ts i < target"
        proof (cases "i \<le> mid")
          case True
          with h below show ?thesis by blast
        next
          case False
          then have "mid + 1 \<le> i" by linarith
          with h IH show ?thesis by blast
        qed
      qed
      have "lo \<le> blockAfter_search ts target (mid + 1) hi"
        using IH mid(1) by linarith
      with IH all show ?thesis unfolding eq by blast
    qed
  qed
qed

text \<open>
  The search for \<open>blockBefore\<close> returns a block of the range above which every
  timestamp is greater than the target, and whose own timestamp is at most the target
  unless it is the first block: the largest block with a timestamp at or before the
  target, or the creation block when there is none.
\<close>

lemma blockBefore_search_correct:
  assumes "\<forall>i j. lo \<le> i \<and> i \<le> j \<and> j \<le> hi \<longrightarrow> ts i \<le> ts j" and "lo \<le> hi"
  shows "lo \<le> blockBefore_search ts target lo hi \<and> blockBefore_search ts target lo hi \<le> hi \<and>
         (\<forall>i. blockBefore_search ts target lo hi < i \<and> i \<le> hi \<longrightarrow> target < ts i) \<and>
         (lo < blockBefore_search ts target lo hi \<longrightarrow>
            ts (blockBefore_search ts target lo hi) \<le> target)"
  using assms
proof (induction ts target lo hi rule: blockBefore_search.induct)
  case (1 ts target lo hi)
  show ?case
  proof (cases "lo < hi")
    case False
    then have "blockBefore_search ts target lo hi = lo"
      by (subst blockBefore_search.simps) simp
    with False "1.prems" show ?thesis by simp
  next
    case True
    define mid where "mid = (lo + hi + 1) div 2"
    have mid: "lo < mid" "mid \<le> hi" using True unfolding mid_def by linarith+
    show ?thesis
    proof (cases "ts mid \<le> target")
      case le: True
      have eq: "blockBefore_search ts target lo hi = blockBefore_search ts target mid hi"
        using True le by (subst blockBefore_search.simps) (simp add: mid_def)
      have mono: "\<forall>i j. mid \<le> i \<and> i \<le> j \<and> j \<le> hi \<longrightarrow> ts i \<le> ts j"
      proof (intro allI impI)
        fix i j assume "mid \<le> i \<and> i \<le> j \<and> j \<le> hi"
        then have "lo \<le> i \<and> i \<le> j \<and> j \<le> hi" using mid(1) by linarith
        with "1.prems"(1) show "ts i \<le> ts j" by blast
      qed
      note IH = "1.IH"(1) [OF True le [unfolded mid_def], folded mid_def, OF mono mid(2)]
      have "lo \<le> blockBefore_search ts target mid hi"
        using IH mid(1) by linarith
      moreover have "ts (blockBefore_search ts target mid hi) \<le> target"
      proof (cases "mid < blockBefore_search ts target mid hi")
        case True
        with IH show ?thesis by blast
      next
        case False
        with IH have "blockBefore_search ts target mid hi = mid" by linarith
        with le show ?thesis by simp
      qed
      ultimately show ?thesis unfolding eq using IH by blast
    next
      case gt: False
      have eq: "blockBefore_search ts target lo hi = blockBefore_search ts target lo (mid - 1)"
        using True gt by (subst blockBefore_search.simps) (simp add: mid_def)
      have mono: "\<forall>i j. lo \<le> i \<and> i \<le> j \<and> j \<le> mid - 1 \<longrightarrow> ts i \<le> ts j"
      proof (intro allI impI)
        fix i j assume "lo \<le> i \<and> i \<le> j \<and> j \<le> mid - 1"
        then have "lo \<le> i \<and> i \<le> j \<and> j \<le> hi" using mid(2) by linarith
        with "1.prems"(1) show "ts i \<le> ts j" by blast
      qed
      have lo: "lo \<le> mid - 1" using mid(1) by linarith
      note IH = "1.IH"(2) [OF True gt [unfolded mid_def], folded mid_def, OF mono lo]
      have above: "target < ts i" if "mid \<le> i" "i \<le> hi" for i
      proof -
        have "ts mid \<le> ts i" using "1.prems"(1) that mid(1) by (meson less_imp_le order_refl)
        with gt show ?thesis by linarith
      qed
      have all: "\<forall>i. blockBefore_search ts target lo (mid - 1) < i \<and> i \<le> hi \<longrightarrow> target < ts i"
      proof (intro allI impI)
        fix i assume h: "blockBefore_search ts target lo (mid - 1) < i \<and> i \<le> hi"
        show "target < ts i"
        proof (cases "mid \<le> i")
          case True
          with h above show ?thesis by blast
        next
          case False
          then have "i \<le> mid - 1" by linarith
          with h IH show ?thesis by blast
        qed
      qed
      have "blockBefore_search ts target lo (mid - 1) \<le> hi"
        using IH mid(2) by linarith
      with IH all show ?thesis unfolding eq by blast
    qed
  qed
qed

section \<open>C7: time boundaries on the ten-block chain\<close>

text \<open>
  C7, as amended. With the block timestamps \<open>[7,30,45,87,100,150,209,234,290,306]\<close> at
  the block numbers \<open>0\<close> to \<open>9\<close>, the contract created at block \<open>0\<close> and the head at
  block \<open>9\<close>: \<open>from = 299\<close> resolves to \<open>fromBlock = 9\<close>, \<open>to = 299\<close> resolves to
  \<open>toBlock = 8\<close>, and \<open>{from = 10, to = 299}\<close> resolves to \<open>{fromBlock = 1, toBlock = 8}\<close>:
  block \<open>1\<close>, with timestamp \<open>30\<close>, is the smallest block whose timestamp is at least
  \<open>10\<close>.
\<close>

theorem resolveBlockRange_mock_chain:
  "resolveBlockRange quiet_manager (Some \<lparr>from_ts = Some 299, to_ts = None\<rparr>) = Inr (9, None) \<and>
   resolveBlockRange quiet_manager (Some \<lparr>from_ts = None, to_ts = Some 299\<rparr>) = Inr (0, Some 8) \<and>
   resolveBlockRange quiet_manager (Some \<lparr>from_ts = Some 10, to_ts = Some 299\<rparr>)
     = Inr (1, Some 8)"
  by (simp add: resolveBlockRange_def truthy_field_def quiet_manager_def mock_manager_def
      block_time_index_def mock_timestamp_def mockBlocksEthereum_def)

text \<open>C7 as stated fails: \<open>from = 10\<close> does not resolve to block \<open>2\<close>.\<close>

theorem resolveBlockRange_mock_chain_counterexample:
  "resolveBlockRange quiet_manager (Some \<lparr>from_ts = Some 10, to_ts = Some 299\<rparr>)
     \<noteq> Inr (2, Some 8)"
  by (simp add: resolveBlockRange_def truthy_field_def quiet_manager_def mock_manager_def
      block_time_index_def mock_timestamp_def mockBlocksEthereum_def)

section \<open>C8: resolving a block describer\<close>

lemma getBlockNumberFromNumberOrString_cases:
  "getBlockNumberFromNumberOrString m (Number n) = Inr n"
  "getBlock m block = Inl e \<Longrightarrow>
     getBlockNumberFromNumberOrString m (Describer block) = Inl (CannotGetTheNumberOfTheBlock e)"
  "getBlock m block = Inr None \<Longrightarrow>
     getBlockNumberFromNumberOrString m (Describer block) = Inl (BlockHasNoNumber block)"
  "getBlock m block = Inr (Some blockObject) \<Longrightarrow> number blockObject = None \<Longrightarrow>
     getBlockNumberFromNumberOrString m (Describer block) = Inl (BlockHasNoNumber block)"
  "getBlock m block = Inr (Some blockObject) \<Longrightarrow> number blockObject = Some n \<Longrightarrow> n \<noteq> 0 \<Longrightarrow>
     getBlockNumberFromNumberOrString m (Describer block) = Inr n"
  by simp_all

text \<open>
  C8, at the input where the code departs from it. The block looked up for
  \<^verbatim>\<open>'genesis'\<close>, and for \<^verbatim>\<open>'latest'\<close> on a chain whose head is block \<open>0\<close>, has the
  number \<open>0\<close>; \<^verbatim>\<open>!blockObject.number\<close> holds for it, and the describer is rejected
  with "Block ... has no number" instead of being resolved to \<open>0\<close>.
\<close>

theorem getBlockNumberFromNumberOrString_block_zero:
  "getBlock quiet_manager ''genesis'' = Inr (Some \<lparr> number = Some 0 \<rparr>) \<and>
   getBlockNumberFromNumberOrString quiet_manager (Describer ''genesis'')
     = Inl (BlockHasNoNumber ''genesis'') \<and>
   getBlock fresh_chain_manager ''latest'' = Inr (Some \<lparr> number = Some 0 \<rparr>) \<and>
   getBlockNumberFromNumberOrString fresh_chain_manager (Describer ''latest'')
     = Inl (BlockHasNoNumber ''latest'')"
  by (simp add: fresh_chain_manager_def quiet_manager_def mock_manager_def)

section \<open>C9: the scan starts at the creation block\<close>

lemma earlier_blocks_not_queried:
  assumes "\<forall>f t. lo \<le> f \<longrightarrow> g f t = getPastEvents m f t"
  shows "lo \<le> fromBlock \<Longrightarrow> fromBlock \<le> toBlock + 1 \<Longrightarrow>
     recursiveGetPastEvents fuel (m\<lparr>getPastEvents := g\<rparr>) fromBlock (Number toBlock)
       = recursiveGetPastEvents fuel m fromBlock (Number toBlock)"
proof (induction fuel arbitrary: fromBlock toBlock)
  case 0
  show ?case by simp
next
  case (Suc k)
  define mid where "mid = intervalHalf fromBlock toBlock"
  have mid: "fromBlock \<le> mid + 1" "mid \<le> toBlock"
    using Suc.prems(2) unfolding mid_def intervalHalf_def by linarith+
  have same: "g fromBlock toBlock = getPastEvents m fromBlock toBlock"
    using assms Suc.prems(1) by simp
  have first: "recursiveGetPastEvents k (m\<lparr>getPastEvents := g\<rparr>) fromBlock (Number mid)
                 = recursiveGetPastEvents k m fromBlock (Number mid)"
    using Suc.prems(1) mid(1) by (rule Suc.IH)
  have second: "recursiveGetPastEvents k (m\<lparr>getPastEvents := g\<rparr>) (mid + 1) (Number toBlock)
                 = recursiveGetPastEvents k m (mid + 1) (Number toBlock)"
    using Suc.prems(1) mid by (intro Suc.IH) linarith+
  show ?case
    using same first [unfolded mid_def] second [unfolded mid_def]
    by (simp split: sum.splits)
qed

lemma checkAndAddMetaDataToEvent_provider:
  "checkAndAddMetaDataToEvent (m\<lparr>getPastEvents := g\<rparr>) = checkAndAddMetaDataToEvent m"
  by (rule ext)
    (simp add: checkAndAddMetaDataToEvent_def createEthereumMetaData_def
       split: option.splits sum.splits)

lemma creation_provider:
  "creationBlockNumberHashStorage (m\<lparr>getPastEvents := g\<rparr>) = creationBlockNumberHashStorage m"
  by simp

lemma getBlockNumber_provider:
  "getBlockNumberFromNumberOrString (m\<lparr>getPastEvents := g\<rparr>) toBlock
     = getBlockNumberFromNumberOrString m toBlock"
  by (cases toBlock) simp_all

text \<open>
  C9. \<^verbatim>\<open>getHashesAndSizesFromEvents\<close> called with a \<open>fromBlock\<close> below the creation block
  of the contract gives the result of the call with the creation block, and in general
  the result of the call with \<open>max fromBlock creationBlockNumberHashStorage\<close>. No block
  before the creation block is queried: when the block the range ends at resolves to
  \<open>head\<close> and the range does not start after \<open>head + 1\<close>, the result is the same for
  every provider \<open>g\<close> that answers as the manager's does on the ranges that start at
  the creation block or later, whatever \<open>g\<close> answers on the ranges that start earlier.
\<close>

theorem getHashesAndSizesFromEvents_starts_at_creation:
  "getHashesAndSizesFromEvents fuel m fromBlock toBlock
     = getHashesAndSizesFromEvents fuel m (max fromBlock (creationBlockNumberHashStorage m)) toBlock \<and>
   (fromBlock < creationBlockNumberHashStorage m \<longrightarrow>
      getHashesAndSizesFromEvents fuel m fromBlock toBlock
        = getHashesAndSizesFromEvents fuel m (creationBlockNumberHashStorage m) toBlock) \<and>
   (getBlockNumberFromNumberOrString m (or_latest toBlock) = Inr head \<and>
    max fromBlock (creationBlockNumberHashStorage m) \<le> head + 1 \<and>
    (\<forall>f t. creationBlockNumberHashStorage m \<le> f \<longrightarrow> g f t = getPastEvents m f t)
      \<longrightarrow> getHashesAndSizesFromEvents fuel (m\<lparr>getPastEvents := g\<rparr>) fromBlock toBlock
            = getHashesAndSizesFromEvents fuel m fromBlock toBlock)"
proof (intro conjI impI)
  show "getHashesAndSizesFromEvents fuel m fromBlock toBlock
     = getHashesAndSizesFromEvents fuel m (max fromBlock (creationBlockNumberHashStorage m)) toBlock"
    by (simp add: getHashesAndSizesFromEvents_def max_def)
next
  assume "fromBlock < creationBlockNumberHashStorage m"
  then show "getHashesAndSizesFromEvents fuel m fromBlock toBlock
        = getHashesAndSizesFromEvents fuel m (creationBlockNumberHashStorage m) toBlock"
    by (simp add: getHashesAndSizesFromEvents_def)
next
  assume h: "getBlockNumberFromNumberOrString m (or_latest toBlock) = Inr head \<and>
    max fromBlock (creationBlockNumberHashStorage m) \<le> head + 1 \<and>
    (\<forall>f t. creationBlockNumberHashStorage m \<le> f \<longrightarrow> g f t = getPastEvents m f t)"
  from h have agree: "\<forall>f t. creationBlockNumberHashStorage m \<le> f \<longrightarrow> g f t = getPastEvents m f t"
    and head: "getBlockNumberFromNumberOrString m (or_latest toBlock) = Inr head"
    and le: "max fromBlock (creationBlockNumberHashStorage m) \<le> head + 1"
    by blast+
  define start where "start = (if fromBlock < creationBlockNumberHashStorage m
              then creationBlockNumberHashStorage m else fromBlock)"
  have start: "creationBlockNumberHashStorage m \<le> start" "start \<le> head + 1"
    using le by (simp_all add: start_def max_def split: if_splits)
  have "getBlockNumberFromNumberOrString (m\<lparr>getPastEvents := g\<rparr>) (or_latest toBlock) = Inr head"
    using head by (simp add: getBlockNumber_provider)
  then have "recursiveGetPastEvents fuel (m\<lparr>getPastEvents := g\<rparr>) start (or_latest toBlock)
          = recursiveGetPastEvents fuel (m\<lparr>getPastEvents := g\<rparr>) start (Number head)"
    by (rule resolved_reference)
  also have "\<dots> = recursiveGetPastEvents fuel m start (Number head)"
    by (rule earlier_blocks_not_queried [OF agree start])
  also have "\<dots> = recursiveGetPastEvents fuel m start (or_latest toBlock)"
    by (rule resolved_reference [OF head, symmetric])
  finally have eq: "recursiveGetPastEvents fuel (m\<lparr>getPastEvents := g\<rparr>)
            (if fromBlock < creationBlockNumberHashStorage m
              then creationBlockNumberHashStorage m else fromBlock) (or_latest toBlock)
       = recursiveGetPastEvents fuel m
            (if fromBlock < creationBlockNumberHashStorage m
              then creationBlockNumberHashStorage m else fromBlock) (or_latest toBlock)"
    unfolding start_def .
  show "getHashesAndSizesFromEvents fuel (m\<lparr>getPastEvents := g\<rparr>) fromBlock toBlock
            = getHashesAndSizesFromEvents fuel m fromBlock toBlock"
    unfolding getHashesAndSizesFromEvents_def checkAndAddMetaDataToEvent_provider
      creation_provider eq by (rule refl)
qed


lemma late_events:
  "\<exists>entries. getHashesAndSizesFromEvents 1 late_contract_manager 5 None = Some (Inr entries) \<and>
     map (m_blockNumber \<circ> e_meta) entries = [6, 9]"
  by (simp add: getHashesAndSizesFromEvents_def late_contract_manager_def
      quiet_manager_def mock_manager_def limitedProvider_def sum_list_triv
      unlimited_query_def pastEventsMock_def new_hash_def checkAndAddMetaDataToEvent_def
      createEthereumMetaData_def mock_hexToNumber_def)

text \<open>
  The contract created at block \<open>5\<close>: a scan from block \<open>2\<close> is the scan from block
  \<open>5\<close>, it returns the events of blocks \<open>6\<close> and \<open>9\<close>, and a provider that fails on
  every range starting before block \<open>5\<close> gives the same.
\<close>

theorem getHashesAndSizesFromEvents_starts_at_creation_witness:
  "getHashesAndSizesFromEvents 1 late_contract_manager 2 None
     = getHashesAndSizesFromEvents 1 late_contract_manager 5 None \<and>
   getHashesAndSizesFromEvents 1 (late_contract_manager\<lparr>getPastEvents := after_creation_only\<rparr>) 2 None
     = getHashesAndSizesFromEvents 1 late_contract_manager 2 None \<and>
   (\<exists>entries. getHashesAndSizesFromEvents 1 late_contract_manager 2 None = Some (Inr entries) \<and>
      map (m_blockNumber \<circ> e_meta) entries = [6, 9])"
proof -
  have creation: "creationBlockNumberHashStorage late_contract_manager = 5"
    by (simp add: late_contract_manager_def)
  have head: "getBlockNumberFromNumberOrString late_contract_manager (or_latest None) = Inr 9"
    by (simp add: late_contract_manager_def quiet_manager_def mock_manager_def)
  have agree: "\<forall>f t. creationBlockNumberHashStorage late_contract_manager \<le> f \<longrightarrow>
       after_creation_only f t = getPastEvents late_contract_manager f t"
    by (simp add: creation after_creation_only_def late_contract_manager_def)
  note C = getHashesAndSizesFromEvents_starts_at_creation
    [of 1 late_contract_manager 2 None 9 after_creation_only]
  have a: "getHashesAndSizesFromEvents 1 late_contract_manager 2 None
     = getHashesAndSizesFromEvents 1 late_contract_manager 5 None"
    using C by (simp add: creation)
  have b: "getHashesAndSizesFromEvents 1 (late_contract_manager\<lparr>getPastEvents := after_creation_only\<rparr>) 2 None
     = getHashesAndSizesFromEvents 1 late_contract_manager 2 None"
    using C head agree by (simp add: creation)
  show ?thesis
    using a b late_events by simp
qed

section \<open>C10: which events enrichment rejects\<close>



end
